theory Spec2Isabelle
  imports Main "HOL-Library.Sublist"
begin

section \<open>Data model\<close>

text \<open>
  The items and requests a spider callback yields. A \<open>Patch\<close> is the item of
  \<^verbatim>\<open>patchfinder.spiders.items\<close>: the spider fills in \<open>patch_link\<close> and
  \<open>reaching_path\<close>. A \<open>Request\<close> carries the URL, the callback that will parse the
  response and the scheduling priority (Scrapy's default priority is 0).
\<close>

record Patch =
  patch_link :: string
  reaching_path :: string

datatype callback = cb_parse | cb_parse_debian

record Request =
  url :: string
  callback :: callback
  priority :: int

datatype yielded = Item Patch | Req Request

text \<open>
  A fetched page: its URL, its headers (looked up by header name) and its body.
\<close>

record Response =
  resp_url :: string
  headers :: "string \<Rightarrow> string option"
  body :: string

text \<open>
  The vulnerability handed to the spider. \<open>DefaultSpider.__init__\<close> reads
  \<open>vuln_id\<close> and \<open>entrypoint_URLs\<close> from it; \<open>kind\<close> and \<open>base_url\<close> are the other
  two fields of the descriptor, which the tests read (\<open>vuln.base_url\<close>).
\<close>

datatype vuln_kind = Specific | Generic

record Vulnerability =
  vuln_id :: string
  kind :: vuln_kind
  base_url :: string
  entrypoint_URLs :: "string list"

text \<open>
  The attributes of a \<open>DefaultSpider\<close> instance. \<open>patches\<close> is the list of patch
  links found so far; \<open>patch_limit\<close> is a Python integer.
\<close>

record DefaultSpider =
  name :: string
  spider_vuln_id :: string
  start_urls :: "string list"
  patches :: "string list"
  deny_domains :: "string list"
  important_domains :: "string list"
  patch_limit :: int

text \<open>
  The keyword arguments \<open>__init__\<close> accepts (\<open>allowed_keys\<close>); an absent key leaves
  the class attribute in place.
\<close>

record kwargs =
  kw_deny_domains :: "string list option"
  kw_important_domains :: "string list option"
  kw_patch_limit :: "int option"

text \<open>
  The collaborators of \<open>DefaultSpider\<close> that live outside the spider module, taken
  as parameters:
  \<^item> \<open>found_links r\<close>: the absolute URLs that
    \<^verbatim>\<open>LxmlLinkExtractor(restrict_xpaths=entrypoint.get_xpath(r.url))\<close> finds in \<open>r\<close>,
    in document order, before its domain filter;
  \<^item> \<open>netloc u\<close>: \<open>urlparse(u).netloc\<close>, the host of the URL as it is written, with its
    port and its user information when it has them, empty when the URL has none;
  \<^item> \<open>urljoin base u\<close>: \<open>response.urljoin\<close>;
  \<^item> \<open>is_patch u\<close>: \<open>entrypoint.is_patch\<close>, the patch link of \<open>u\<close>, or \<open>None\<close> for a
    result that is no string;
  \<^item> \<open>hostname u\<close>: \<open>urlparse(u).hostname\<close>, \<open>None\<close> when the URL has no host;
  \<^item> \<open>DebianParser_parse v\<close>: \<open>DebianParser().parse(v)\<close>.
\<close>

record env =
  found_links :: "Response \<Rightarrow> string list"
  netloc :: "string \<Rightarrow> string"
  urljoin :: "string \<Rightarrow> string \<Rightarrow> string"
  is_patch :: "string \<Rightarrow> string option"
  hostname :: "string \<Rightarrow> string option"
  DebianParser_parse :: "string \<Rightarrow> Patch list"

section \<open>DefaultSpider\<close>

definition DefaultSpider_init :: "Vulnerability \<Rightarrow> kwargs \<Rightarrow> DefaultSpider" where
  "DefaultSpider_init vuln kw =
     \<lparr> name = ''default_spider'',
       spider_vuln_id = vuln_id vuln,
       start_urls = entrypoint_URLs vuln,
       patches = [],
       deny_domains = (case kw_deny_domains kw of
                         None \<Rightarrow> [''facebook.com'', ''twitter.com''] | Some d \<Rightarrow> d),
       important_domains = (case kw_important_domains kw of None \<Rightarrow> [] | Some d \<Rightarrow> d),
       patch_limit = (case kw_patch_limit kw of None \<Rightarrow> 100 | Some n \<Rightarrow> n) \<rparr>"

definition start_requests :: "DefaultSpider \<Rightarrow> Request list" where
  "start_requests sp =
     map (\<lambda>u. if prefix ''https://security-tracker.debian.org'' u
              then \<lparr> url = u, callback = cb_parse_debian, priority = 0 \<rparr>
              else \<lparr> url = u, callback = cb_parse, priority = 0 \<rparr>)
         (start_urls sp)"

definition add_patch :: "DefaultSpider \<Rightarrow> string \<Rightarrow> DefaultSpider" where
  "add_patch sp p = sp\<lparr> patches := patches sp @ [p] \<rparr>"

definition domain_priority :: "env \<Rightarrow> DefaultSpider \<Rightarrow> string \<Rightarrow> int" where
  "domain_priority e sp u =
     (case hostname e u of
        None \<Rightarrow> 0
      | Some d \<Rightarrow> if d \<in> set (important_domains sp) then 1 else 0)"

text \<open>\<open>len(self.patches) < self.patch_limit\<close>\<close>

definition below_limit :: "DefaultSpider \<Rightarrow> bool" where
  "below_limit sp = (int (length (patches sp)) < patch_limit sp)"

text \<open>
  Python's truth value of what \<open>is_patch\<close> returned: a non-empty string is true,
  the empty string and every non-string result (\<open>None\<close>) are false. The result is
  the patch link when it is true.
\<close>

definition truthy :: "string option \<Rightarrow> string option" where
  "truthy v = (case v of None \<Rightarrow> None | Some s \<Rightarrow> if s = [] then None else Some s)"

text \<open>The \<open>elif\<close> branch of the loop body of \<open>parse\<close>.\<close>

definition follow :: "env \<Rightarrow> DefaultSpider \<Rightarrow> string \<Rightarrow> DefaultSpider \<times> yielded list" where
  "follow e sp link =
     (if below_limit sp
      then (sp, [Req \<lparr> url = link, callback = cb_parse,
                       priority = domain_priority e sp link \<rparr>])
      else (sp, []))"

text \<open>
  One iteration of the loop of \<open>parse\<close> on the extracted link \<open>l\<close> of the page at
  \<open>rurl\<close>: the spider afterwards and what the iteration yields.
\<close>

definition parse_link ::
    "env \<Rightarrow> string \<Rightarrow> DefaultSpider \<Rightarrow> string \<Rightarrow> DefaultSpider \<times> yielded list" where
  "parse_link e rurl sp l =
     (let link = urljoin e rurl l in
      case truthy (is_patch e link) of
        Some p \<Rightarrow>
          if below_limit sp
          then (if p \<notin> set (patches sp)
                then (add_patch sp p, [Item \<lparr> patch_link = p, reaching_path = rurl \<rparr>])
                else (sp, []))
          else follow e sp link
      | None \<Rightarrow> follow e sp link)"

fun parse_links ::
    "env \<Rightarrow> string \<Rightarrow> DefaultSpider \<Rightarrow> string list \<Rightarrow> DefaultSpider \<times> yielded list" where
  "parse_links e rurl sp [] = (sp, [])"
| "parse_links e rurl sp (l # ls) =
     (let (sp1, out1) = parse_link e rurl sp l;
          (sp2, out2) = parse_links e rurl sp1 ls
      in (sp2, out1 @ out2))"

text \<open>
  \<open>str.lower\<close> on the ASCII letters.
\<close>

definition lower_char :: "char \<Rightarrow> char" where
  "lower_char c =
     (let n = (of_char c :: nat) in if 65 \<le> n \<and> n \<le> 90 then char_of (n + 32) else c)"

definition lower :: "string \<Rightarrow> string" where
  "lower s = map lower_char s"

text \<open>
  \<open>LxmlLinkExtractor\<close> is Scrapy's, not the repository's. The test it applies for
  \<open>deny_domains\<close> is the library's \<open>url_is_from_any_domain\<close>, written here as the
  library has it: the lower-cased netloc of the URL is compared with each lower-cased
  domain, and matches when it is the domain or ends with a dot and the domain; a URL
  with no netloc matches nothing.
  \<^verbatim>\<open>
  host = parse_url(url).netloc.lower()
  if not host:
      return False
  domains = [d.lower() for d in domains]
  return any((host == d) or (host.endswith(f".{d}")) for d in domains)
  \<close>
\<close>

definition url_is_from_any_domain :: "env \<Rightarrow> string \<Rightarrow> string list \<Rightarrow> bool" where
  "url_is_from_any_domain e u domains =
     (let host = lower (netloc e u) in
      if host = [] then False
      else list_ex (\<lambda>d. host = lower d \<or> suffix (''.'' @ lower d) host) domains)"

text \<open>
  With \<open>deny_domains\<close> the extractor hands to the loop the links of the page that do
  not pass this test, in the order of the page.
\<close>

definition extract_links :: "env \<Rightarrow> string list \<Rightarrow> Response \<Rightarrow> string list" where
  "extract_links e deny r =
     filter (\<lambda>l. \<not> url_is_from_any_domain e l deny) (found_links e r)"

definition parse :: "env \<Rightarrow> DefaultSpider \<Rightarrow> Response \<Rightarrow> DefaultSpider \<times> yielded list" where
  "parse e sp r = parse_links e (resp_url r) sp (extract_links e (deny_domains sp) r)"

text \<open>One iteration of the loop of \<open>parse_debian\<close>.\<close>

definition debian_patch :: "DefaultSpider \<Rightarrow> Patch \<Rightarrow> DefaultSpider \<times> yielded list" where
  "debian_patch sp p =
     (if below_limit sp then (add_patch sp (patch_link p), [Item p]) else (sp, []))"

fun debian_patches :: "DefaultSpider \<Rightarrow> Patch list \<Rightarrow> DefaultSpider \<times> yielded list" where
  "debian_patches sp [] = (sp, [])"
| "debian_patches sp (p # ps) =
     (let (sp1, out1) = debian_patch sp p;
          (sp2, out2) = debian_patches sp1 ps
      in (sp2, out1 @ out2))"

definition parse_debian ::
    "env \<Rightarrow> DefaultSpider \<Rightarrow> Response \<Rightarrow> DefaultSpider \<times> yielded list" where
  "parse_debian e sp r = debian_patches sp (DebianParser_parse e (spider_vuln_id sp))"

text \<open>
  A run of the spider: the responses arrive one at a time, each handed to the
  callback of its request. Scrapy calls the callbacks from one thread, and an
  iteration of either loop tests and appends before it yields.
\<close>

datatype event = Parse Response | ParseDebian Response

fun handle :: "env \<Rightarrow> DefaultSpider \<Rightarrow> event \<Rightarrow> DefaultSpider \<times> yielded list" where
  "handle e sp (Parse r) = parse e sp r"
| "handle e sp (ParseDebian r) = parse_debian e sp r"

fun run :: "env \<Rightarrow> DefaultSpider \<Rightarrow> event list \<Rightarrow> DefaultSpider \<times> yielded list" where
  "run e sp [] = (sp, [])"
| "run e sp (ev # evs) =
     (let (sp1, out1) = handle e sp ev;
          (sp2, out2) = run e sp1 evs
      in (sp2, out1 @ out2))"

section \<open>BaseSpider\<close>

text \<open>
  What a parse callable of \<open>BaseSpider\<close> yields: the strings \<open>_scrape\<close> extracts, or
  the items and requests of a callback a subclass supplies. A callable that raises
  returns the error instead. \<open>json.loads\<close> and \<open>bytes.decode\<close> raise subclasses of
  \<open>ValueError\<close>.
\<close>

datatype base_yield = Str string | Out yielded

datatype py_error = ValueError

type_synonym parse_callable = "Response \<Rightarrow> py_error + base_yield list"

text \<open>
  The collaborators of \<open>BaseSpider\<close>, taken as parameters:
  \<^item> \<open>callback_by_url r\<close>: the method \<open>_callback_by_url\<close>, a hook that returns \<open>None\<close> in
    \<open>BaseSpider\<close> itself and that a subclass may override;
  \<^item> \<open>normal_xpaths u\<close>: \<open>Resource.get_resource(u).normal_xpaths\<close>;
  \<^item> \<open>xpath_extract r x\<close>: \<open>r.xpath(x).extract()\<close>;
  \<^item> \<open>json_to_xml b\<close>: \<open>dicttoxml.dicttoxml(json.loads(b.decode()))\<close>, \<open>None\<close> when
    decoding or loading raises.
  The leading underscore of the private methods is dropped in the names below.
\<close>

record base_env =
  callback_by_url :: "Response \<Rightarrow> parse_callable option"
  normal_xpaths :: "string \<Rightarrow> string list"
  xpath_extract :: "Response \<Rightarrow> string \<Rightarrow> string list"
  json_to_xml :: "string \<Rightarrow> string option"

definition scrape :: "base_env \<Rightarrow> Response \<Rightarrow> base_yield list" where
  "scrape b r = map Str (concat (map (xpath_extract b r) (normal_xpaths b (resp_url r))))"

definition generate_items_and_requests :: "base_env \<Rightarrow> Response \<Rightarrow> base_yield list" where
  "generate_items_and_requests b r = scrape b r"

definition parse_default :: "base_env \<Rightarrow> parse_callable" where
  "parse_default b r = Inr (generate_items_and_requests b r)"

definition json_response_to_xml :: "base_env \<Rightarrow> Response \<Rightarrow> py_error + Response" where
  "json_response_to_xml b r =
     (case json_to_xml b (body r) of
        None \<Rightarrow> Inl ValueError
      | Some xml \<Rightarrow> Inr (r\<lparr> body := xml \<rparr>))"

definition parse_json :: "base_env \<Rightarrow> parse_callable" where
  "parse_json b r =
     (case json_response_to_xml b r of
        Inl err \<Rightarrow> Inl err
      | Inr r' \<Rightarrow> Inr (generate_items_and_requests b r'))"

definition callback_by_content :: "base_env \<Rightarrow> Response \<Rightarrow> parse_callable option" where
  "callback_by_content b r =
     (case headers r ''Content-Type'' of
        None \<Rightarrow> None
      | Some content_type \<Rightarrow>
          if prefix ''application/json'' content_type
          then Some (parse_json b)
          else Some (parse_default b))"

definition BaseSpider_callback :: "base_env \<Rightarrow> Response \<Rightarrow> parse_callable option" where
  "BaseSpider_callback b r =
     (case callback_by_url b r of
        None \<Rightarrow> callback_by_content b r
      | Some cb \<Rightarrow> Some cb)"

definition BaseSpider_parse :: "base_env \<Rightarrow> Response \<Rightarrow> py_error + base_yield list" where
  "BaseSpider_parse b r =
     (case BaseSpider_callback b r of
        None \<Rightarrow> Inr []
      | Some parse_callable \<Rightarrow> parse_callable r)"

section \<open>The command line program\<close>

text \<open>
  The parsed command line, the settings handed to \<open>CrawlerProcess\<close>, and what the
  program does that can be seen from outside: it starts a crawl, it prints a line.
  The script has no call of \<open>sys.exit\<close>: it runs to its last line, so the
  interpreter ends with status 0.
\<close>

record args =
  arg_vuln_id :: string
  arg_depth :: int
  arg_patch_limit :: int
  arg_deny_domains :: "string list"
  arg_imp_domains :: "string list"
  arg_log :: bool

record crawler_settings =
  USER_AGENT :: string
  ITEM_PIPELINES :: "(string \<times> int) list"
  DEPTH_LIMIT :: int
  LOG_ENABLED :: bool

datatype effect = Crawl crawler_settings DefaultSpider | Print string

record outcome =
  effects :: "effect list"
  exit_status :: int

text \<open>
  \<open>create_vuln\<close> is \<open>context.create_vuln\<close>, a parameter: \<open>None\<close> stands for its false
  result on an identifier it does not recognise.
\<close>

definition spawn_crawler ::
    "(string \<Rightarrow> Vulnerability option) \<Rightarrow> args \<Rightarrow> bool \<times> effect list" where
  "spawn_crawler create_vuln a =
     (case create_vuln (arg_vuln_id a) of
        None \<Rightarrow> (False, [])
      | Some vuln \<Rightarrow>
          (True,
           [Crawl
              \<lparr> USER_AGENT = ''Mozilla/4.0 (compatible; MSIE 7.0; Windows NT 5.1)'',
                ITEM_PIPELINES = [(''patchfinder.spiders.pipelines.PatchPipeline'', 300)],
                DEPTH_LIMIT = arg_depth a,
                LOG_ENABLED = arg_log a \<rparr>
              (DefaultSpider_init vuln
                 \<lparr> kw_deny_domains = Some (arg_deny_domains a),
                   kw_important_domains = Some (arg_imp_domains a),
                   kw_patch_limit = Some (arg_patch_limit a) \<rparr>)]))"

definition patchfinder_main ::
    "(string \<Rightarrow> Vulnerability option) \<Rightarrow> args \<Rightarrow> outcome" where
  "patchfinder_main create_vuln a =
     (let (spawn_return, eff) = spawn_crawler create_vuln a in
      \<lparr> effects =
          eff @ [Print (if spawn_return
                        then ''Crawling completed.''
                        else ''Can't recognize that vulnerability.'')],
        exit_status = 0 \<rparr>)"

section \<open>Alias resolution\<close>

text \<open>
  Modelled from the spec: \<open>determine_aliases\<close> and the state it works on are not in
  the spider module of the repository (only the tests call them), so the definitions
  of this section follow section 4.3 of the specification. \<open>resolved_aliases\<close> maps an
  identifier to its descriptor, \<open>pending_generic\<close> is the set of generic advisories
  already requested. The registry and the extraction rules are parameters;
  \<open>resolve\<close> returns \<open>None\<close> where the registry fails with \<open>UnrecognizedIdentifier\<close>,
  and the failure is handed on to the caller.
\<close>

record AliasState =
  resolved_aliases :: "string \<Rightarrow> Vulnerability option"
  pending_generic :: "string set"

datatype FetchRequest = FetchRequest string

datatype error = UnrecognizedIdentifier

record alias_env =
  resolve :: "string \<Rightarrow> Vulnerability option"
  extract_alias_ids :: "Vulnerability \<Rightarrow> Response \<Rightarrow> string list"
  extract_generic_ids :: "Vulnerability \<Rightarrow> Response \<Rightarrow> string list"

text \<open>
  Modelled from the spec: step 2 of section 4.3, which is not in the repository's
  files. Every extracted identifier that is not resolved yet is resolved and recorded;
  no request is made for it.
\<close>

fun resolve_aliases :: "alias_env \<Rightarrow> AliasState \<Rightarrow> string list \<Rightarrow> error + AliasState" where
  "resolve_aliases a st [] = Inr st"
| "resolve_aliases a st (i # ids) =
     (case resolved_aliases st i of
        Some d \<Rightarrow> resolve_aliases a st ids
      | None \<Rightarrow>
          (case resolve a i of
             None \<Rightarrow> Inl UnrecognizedIdentifier
           | Some d \<Rightarrow>
               resolve_aliases a (st\<lparr> resolved_aliases := (resolved_aliases st)(i \<mapsto> d) \<rparr>) ids))"

text \<open>
  Modelled from the spec: step 3 of section 4.3, which is not in the repository's
  files. Every referenced generic advisory that is not pending yet becomes pending,
  and one request for its base URL is made.
\<close>

fun request_generic ::
    "alias_env \<Rightarrow> AliasState \<Rightarrow> string list \<Rightarrow> error + (AliasState \<times> FetchRequest list)" where
  "request_generic a st [] = Inr (st, [])"
| "request_generic a st (g # gs) =
     (if g \<in> pending_generic st then request_generic a st gs
      else
        (case resolve a g of
           None \<Rightarrow> Inl UnrecognizedIdentifier
         | Some d \<Rightarrow>
             (case request_generic a (st\<lparr> pending_generic := insert g (pending_generic st) \<rparr>) gs of
                Inl err \<Rightarrow> Inl err
              | Inr (st', reqs) \<Rightarrow> Inr (st', FetchRequest (base_url d) # reqs))))"

text \<open>
  Modelled from the spec: \<open>determine_aliases\<close> of section 4.3, which is not in the
  repository's files: step 2, then step 3, and the requests of step 3 are returned.
\<close>

definition determine_aliases ::
    "alias_env \<Rightarrow> AliasState \<Rightarrow> Vulnerability \<Rightarrow> Response
       \<Rightarrow> error + (AliasState \<times> FetchRequest list)" where
  "determine_aliases a st descriptor page =
     (case resolve_aliases a st (extract_alias_ids a descriptor page) of
        Inl err \<Rightarrow> Inl err
      | Inr st1 \<Rightarrow> request_generic a st1 (extract_generic_ids a descriptor page))"

section \<open>Reading what a callback yields\<close>

text \<open>
  The patch links of the items in a list of yielded values; the patch links that the
  links of a page classify to; and the link an item or a request was yielded for.
\<close>

fun item_links :: "yielded list \<Rightarrow> string list" where
  "item_links [] = []"
| "item_links (Item p # ys) = patch_link p # item_links ys"
| "item_links (Req q # ys) = item_links ys"

definition patch_links_in :: "env \<Rightarrow> string \<Rightarrow> string list \<Rightarrow> string list" where
  "patch_links_in e rurl ls = List.map_filter (\<lambda>l. truthy (is_patch e (urljoin e rurl l))) ls"


text \<open>A run in which every page is parsed by \<open>parse\<close>.\<close>

fun only_parse :: "event list \<Rightarrow> bool" where
  "only_parse [] = True"
| "only_parse (Parse r # evs) = only_parse evs"
| "only_parse (ParseDebian r # evs) = False"

section \<open>A small run to try the definitions on\<close>

text \<open>
  A concrete environment, for URLs without user information: the netloc of a URL is
  what stands between \<open>https://\<close> and the next slash, its hostname is the netloc
  without the port, in lower case, links are absolute, and a link is a patch when it
  ends in \<open>.patch\<close>.
\<close>

definition ex_netloc :: "string \<Rightarrow> string" where
  "ex_netloc u =
     (if prefix ''https://'' u then takeWhile (\<lambda>c. c \<noteq> CHR ''/'') (drop 8 u) else [])"

definition ex_hostname :: "string \<Rightarrow> string option" where
  "ex_hostname u =
     (if ex_netloc u = [] then None
      else Some (lower (takeWhile (\<lambda>c. c \<noteq> CHR '':'') (ex_netloc u))))"

definition ex_env :: "string list \<Rightarrow> Patch list \<Rightarrow> env" where
  "ex_env links debian =
     \<lparr> found_links = (\<lambda>r. links),
       netloc = ex_netloc,
       urljoin = (\<lambda>b u. u),
       is_patch = (\<lambda>u. if suffix ''.patch'' u then Some u else None),
       hostname = ex_hostname,
       DebianParser_parse = (\<lambda>v. debian) \<rparr>"

definition ex_vuln :: Vulnerability where
  "ex_vuln =
     \<lparr> vuln_id = ''CVE-2016-4796'', kind = Specific,
       base_url = ''https://cve.example.org/CVE-2016-4796'',
       entrypoint_URLs = [''https://nvd.example.org/CVE-2016-4796'',
                          ''https://security-tracker.debian.org/tracker/CVE-2016-4796''] \<rparr>"

definition ex_spider :: "int \<Rightarrow> DefaultSpider" where
  "ex_spider n =
     DefaultSpider_init ex_vuln
       \<lparr> kw_deny_domains = None, kw_important_domains = Some [''github.com''],
         kw_patch_limit = Some n \<rparr>"

definition ex_page :: Response where
  "ex_page = \<lparr> resp_url = ''https://lists.example.org/m/1'',
               headers = [''Content-Type'' \<mapsto> ''text/html''], body = [] \<rparr>"

definition ex_links :: "string list" where
  "ex_links = [''https://example.org/notes'', ''https://github.com/o/r/commit/1.patch'',
               ''https://twitter.com/share'', ''https://github.com/o/r/issues/7'',
               ''https://github.com/o/r/commit/2.patch'',
               ''https://github.com/o/r/commit/3.patch'']"

text \<open>The spider after an earlier page has yielded the first patch of the page.\<close>

definition ex_spider_seen :: DefaultSpider where
  "ex_spider_seen = add_patch (ex_spider 2) ''https://github.com/o/r/commit/1.patch''"

text \<open>
  A page whose links are all patches, and what the Debian parser reports for the
  vulnerability: a patch that the page offers too.
\<close>

definition ex_patch_links :: "string list" where
  "ex_patch_links = [''https://github.com/o/r/commit/1.patch'',
                     ''https://github.com/o/r/commit/2.patch'',
                     ''https://github.com/o/r/commit/3.patch'']"

definition ex_debian_patch :: Patch where
  "ex_debian_patch =
     \<lparr> patch_link = ''https://github.com/o/r/commit/1.patch'',
       reaching_path = ''https://security-tracker.debian.org/tracker/CVE-2016-4796'' \<rparr>"

definition ex_debian_page :: Response where
  "ex_debian_page =
     \<lparr> resp_url = ''https://security-tracker.debian.org/tracker/CVE-2016-4796'',
       headers = [''Content-Type'' \<mapsto> ''text/html''], body = [] \<rparr>"

text \<open>
  A generic advisory with no entrypoint URL of its own, a spider built with no
  keyword argument, a \<open>create_vuln\<close> that recognises one identifier, a command line,
  and a \<open>BaseSpider\<close> with a page that came without headers.
\<close>

definition ex_generic_vuln :: Vulnerability where
  "ex_generic_vuln =
     \<lparr> vuln_id = ''DSA-4431-1'', kind = Generic,
       base_url = ''https://security-tracker.debian.org/tracker/DSA-4431-1'',
       entrypoint_URLs = [] \<rparr>"

definition no_kwargs :: kwargs where
  "no_kwargs = \<lparr> kw_deny_domains = None, kw_important_domains = None, kw_patch_limit = None \<rparr>"

definition ex_create_vuln :: "string \<Rightarrow> Vulnerability option" where
  "ex_create_vuln i = (if i = ''CVE-2016-4796'' then Some ex_vuln else None)"

definition ex_args :: "string \<Rightarrow> args" where
  "ex_args i =
     \<lparr> arg_vuln_id = i, arg_depth = 1, arg_patch_limit = 100,
       arg_deny_domains = [''facebook.com'', ''twitter.com''], arg_imp_domains = [],
       arg_log = True \<rparr>"

definition ex_base_env :: base_env where
  "ex_base_env =
     \<lparr> callback_by_url = (\<lambda>r. None),
       normal_xpaths = (\<lambda>u. [''//a/text()'']),
       xpath_extract = (\<lambda>r x. [body r]),
       json_to_xml = (\<lambda>b. Some b) \<rparr>"

definition ex_bare_page :: Response where
  "ex_bare_page = \<lparr> resp_url = ''https://lists.example.org/m/1'',
                    headers = Map.empty, body = ''CVE-2015-5370'' \<rparr>"

text \<open>
  A Gentoo advisory whose page names one CVE and one other advisory, the state before
  any page was seen, and the state after the page was handled once.
\<close>

definition ex_alias_env :: alias_env where
  "ex_alias_env =
     \<lparr> resolve = (\<lambda>i. if i = ''CVE-2005-4048'' then
                          Some \<lparr> vuln_id = i, kind = Specific,
                                 base_url = ''https://cve.example.org/CVE-2005-4048'',
                                 entrypoint_URLs = [''https://nvd.example.org/CVE-2005-4048''] \<rparr>
                        else if i = ''GLSA-200601-06'' then
                          Some \<lparr> vuln_id = i, kind = Generic,
                                 base_url = ''https://gitweb.gentoo.org/data/glsa.git/plain/glsa-200601-06.xml'',
                                 entrypoint_URLs = [] \<rparr>
                        else None),
       extract_alias_ids = (\<lambda>d page. [''CVE-2005-4048'']),
       extract_generic_ids = (\<lambda>d page. [''GLSA-200601-06'']) \<rparr>"

definition ex_glsa :: Vulnerability where
  "ex_glsa =
     \<lparr> vuln_id = ''GLSA-200602-01'', kind = Generic,
       base_url = ''https://gitweb.gentoo.org/data/glsa.git/plain/glsa-200602-01.xml'',
       entrypoint_URLs = [] \<rparr>"

definition ex_glsa_page :: Response where
  "ex_glsa_page =
     \<lparr> resp_url = ''https://gitweb.gentoo.org/data/glsa.git/plain/glsa-200602-01.xml'',
       headers = [''Content-Type'' \<mapsto> ''text/plain''], body = [] \<rparr>"

definition empty_alias_state :: AliasState where
  "empty_alias_state = \<lparr> resolved_aliases = Map.empty, pending_generic = {} \<rparr>"

definition ex_alias_state :: AliasState where
  "ex_alias_state =
     \<lparr> resolved_aliases =
         [''CVE-2005-4048'' \<mapsto>
            \<lparr> vuln_id = ''CVE-2005-4048'', kind = Specific,
              base_url = ''https://cve.example.org/CVE-2005-4048'',
              entrypoint_URLs = [''https://nvd.example.org/CVE-2005-4048''] \<rparr>],
       pending_generic = {''GLSA-200601-06''} \<rparr>"


definition ex_commit_links :: "string list" where
  "ex_commit_links = [''https://example.org/notes'', ''https://github.com/o/r/commit/1'']"

definition ex_env_commit :: "string list \<Rightarrow> env" where
  "ex_env_commit links =
     (ex_env links [])
       \<lparr> is_patch :=
           (\<lambda>u. if suffix ''.patch'' u then Some u
                else if prefix ''https://github.com/o/r/commit/'' u then Some (u @ ''.patch'')
                else None) \<rparr>"

section \<open>Properties of DefaultSpider\<close>

subsection \<open>What the loop of \<open>parse\<close> leaves alone\<close>

lemma add_patch_simps:
  "patches (add_patch sp p) = patches sp @ [p]"
  "patch_limit (add_patch sp p) = patch_limit sp"
  "important_domains (add_patch sp p) = important_domains sp"
  "deny_domains (add_patch sp p) = deny_domains sp"
  "spider_vuln_id (add_patch sp p) = spider_vuln_id sp"
  "start_urls (add_patch sp p) = start_urls sp"
  by (simp_all add: add_patch_def)

lemma domain_priority_add_patch:
  "domain_priority e (add_patch sp p) u = domain_priority e sp u"
  by (simp add: domain_priority_def add_patch_simps split: option.splits)

text \<open>The loop changes no attribute of the spider but \<open>patches\<close>.\<close>

lemma parse_link_frame:
  "fst (parse_link e rurl sp l) = sp\<lparr> patches := patches (fst (parse_link e rurl sp l)) \<rparr>"
  by (simp add: parse_link_def follow_def add_patch_def Let_def split: option.splits)

lemma parse_links_frame:
  "fst (parse_links e rurl sp ls) = sp\<lparr> patches := patches (fst (parse_links e rurl sp ls)) \<rparr>"
proof (induction ls arbitrary: sp)
  case Nil
  then show ?case by simp
next
  case (Cons l ls)
  let ?sp1 = "fst (parse_link e rurl sp l)"
  have "fst (parse_links e rurl sp (l # ls)) = fst (parse_links e rurl ?sp1 ls)"
    by (simp add: split_beta)
  also have "\<dots> = ?sp1\<lparr> patches := patches (fst (parse_links e rurl ?sp1 ls)) \<rparr>"
    by (rule Cons.IH)
  also have "\<dots> = sp\<lparr> patches := patches (fst (parse_links e rurl ?sp1 ls)) \<rparr>"
    by (subst parse_link_frame) simp
  finally show ?case by (simp add: split_beta)
qed

lemma parse_link_priority:
  "Req q \<in> set (snd (parse_link e rurl sp l)) \<Longrightarrow>
     priority q = domain_priority e sp (url q)"
  by (auto simp: parse_link_def follow_def Let_def split: option.splits if_splits)

lemma domain_priority_patches:
  "domain_priority e (sp\<lparr> patches := ps \<rparr>) u = domain_priority e sp u"
  by (simp add: domain_priority_def split: option.splits)

lemma parse_links_priority:
  "Req q \<in> set (snd (parse_links e rurl sp ls)) \<Longrightarrow>
     priority q = domain_priority e sp (url q)"
proof (induction ls arbitrary: sp)
  case Nil
  then show ?case by simp
next
  case (Cons l ls)
  have a: "fst (parse_link e rurl sp l)
      = sp\<lparr> patches := patches (fst (parse_link e rurl sp l)) \<rparr>"
    by (rule parse_link_frame)
  from Cons.prems consider
      "Req q \<in> set (snd (parse_link e rurl sp l))"
    | "Req q \<in> set (snd (parse_links e rurl (fst (parse_link e rurl sp l)) ls))"
    by (auto simp: split_beta)
  then show ?case
  proof cases
    case 1
    then show ?thesis by (rule parse_link_priority)
  next
    case 2
    then have "priority q = domain_priority e (fst (parse_link e rurl sp l)) (url q)"
      by (rule Cons.IH)
    then show ?thesis by (subst (asm) a) (simp add: domain_priority_patches)
  qed
qed

lemma domain_priority_iff:
  "domain_priority e sp u =
     (if \<exists>d. hostname e u = Some d \<and> d \<in> set (important_domains sp) then 1 else 0)"
  by (simp add: domain_priority_def split: option.splits)

subsection \<open>The loop of \<open>parse\<close>, one link at a time\<close>

lemma item_links_append: "item_links (xs @ ys) = item_links xs @ item_links ys"
  by (induction xs rule: item_links.induct) simp_all

lemma parse_links_append:
  "parse_links e rurl sp (xs @ ys) =
     (let (sp1, out1) = parse_links e rurl sp xs;
          (sp2, out2) = parse_links e rurl sp1 ys
      in (sp2, out1 @ out2))"
  by (induction xs arbitrary: sp) (simp_all add: split_beta)

text \<open>The three outcomes of one iteration.\<close>

lemma parse_link_new:
  "truthy (is_patch e (urljoin e rurl l)) = Some p \<Longrightarrow> below_limit sp \<Longrightarrow>
   p \<notin> set (patches sp) \<Longrightarrow>
   parse_link e rurl sp l = (add_patch sp p, [Item \<lparr> patch_link = p, reaching_path = rurl \<rparr>])"
  by (simp add: parse_link_def)

lemma parse_link_seen:
  "truthy (is_patch e (urljoin e rurl l)) = Some p \<Longrightarrow> p \<in> set (patches sp) \<Longrightarrow>
   parse_link e rurl sp l = (sp, [])"
  by (simp add: parse_link_def follow_def)

lemma parse_link_other:
  "truthy (is_patch e (urljoin e rurl l)) = None \<Longrightarrow>
   parse_link e rurl sp l = follow e sp (urljoin e rurl l)"
  by (simp add: parse_link_def)

lemma parse_link_at_limit: "\<not> below_limit sp \<Longrightarrow> parse_link e rurl sp l = (sp, [])"
  by (simp add: parse_link_def follow_def Let_def split: option.splits)

lemma parse_links_at_limit: "\<not> below_limit sp \<Longrightarrow> parse_links e rurl sp ls = (sp, [])"
  by (induction ls) (simp_all add: parse_link_at_limit)

text \<open>The patches a page adds are the patch links of the items it yields.\<close>

lemma parse_link_patches:
  "patches (fst (parse_link e rurl sp l)) = patches sp @ item_links (snd (parse_link e rurl sp l))"
  by (simp add: parse_link_def follow_def add_patch_def Let_def split: option.splits)

lemma parse_links_patches:
  "patches (fst (parse_links e rurl sp ls)) = patches sp @ item_links (snd (parse_links e rurl sp ls))"
  by (induction ls arbitrary: sp) (simp_all add: split_beta parse_link_patches item_links_append)

lemma parse_link_items_new:
  "distinct (item_links (snd (parse_link e rurl sp l)))
   \<and> set (item_links (snd (parse_link e rurl sp l))) \<inter> set (patches sp) = {}"
  by (simp add: parse_link_def follow_def add_patch_def Let_def split: option.splits)

lemma parse_links_items_new:
  "distinct (item_links (snd (parse_links e rurl sp ls)))
   \<and> set (item_links (snd (parse_links e rurl sp ls))) \<inter> set (patches sp) = {}"
proof (induction ls arbitrary: sp)
  case Nil
  then show ?case by simp
next
  case (Cons l ls)
  let ?sp1 = "fst (parse_link e rurl sp l)"
  let ?o1 = "item_links (snd (parse_link e rurl sp l))"
  let ?o2 = "item_links (snd (parse_links e rurl ?sp1 ls))"
  have a: "distinct ?o1 \<and> set ?o1 \<inter> set (patches sp) = {}"
    by (rule parse_link_items_new)
  have b: "distinct ?o2 \<and> set ?o2 \<inter> set (patches ?sp1) = {}"
    by (rule Cons.IH)
  have c: "patches ?sp1 = patches sp @ ?o1"
    by (rule parse_link_patches)
  have "item_links (snd (parse_links e rurl sp (l # ls))) = ?o1 @ ?o2"
    by (simp add: split_beta item_links_append)
  moreover have "distinct (?o1 @ ?o2)"
    using a b c by auto
  moreover have "set (?o1 @ ?o2) \<inter> set (patches sp) = {}"
    using a b c by auto
  ultimately show ?case by simp
qed

lemma parse_links_limit:
  "patch_limit (fst (parse_links e rurl sp ls)) = patch_limit sp"
  by (subst parse_links_frame) simp

lemma parse_link_inv:
  "int (length (patches sp)) \<le> patch_limit sp \<Longrightarrow>
   int (length (patches (fst (parse_link e rurl sp l)))) \<le> patch_limit sp"
  by (simp add: parse_link_def follow_def add_patch_def below_limit_def Let_def split: option.splits)

lemma parse_link_limit: "patch_limit (fst (parse_link e rurl sp l)) = patch_limit sp"
  by (subst parse_link_frame) simp

lemma parse_links_inv:
  "int (length (patches sp)) \<le> patch_limit sp \<Longrightarrow>
   int (length (patches (fst (parse_links e rurl sp ls)))) \<le> patch_limit sp"
proof (induction ls arbitrary: sp)
  case Nil
  then show ?case by simp
next
  case (Cons l ls)
  let ?sp1 = "fst (parse_link e rurl sp l)"
  have "int (length (patches ?sp1)) \<le> patch_limit ?sp1"
    using Cons.prems by (simp add: parse_link_inv parse_link_limit)
  then have "int (length (patches (fst (parse_links e rurl ?sp1 ls)))) \<le> patch_limit ?sp1"
    by (rule Cons.IH)
  then show ?case by (simp add: split_beta parse_link_limit)
qed

lemma distinct_count_list_one: "distinct xs \<Longrightarrow> x \<in> set xs \<Longrightarrow> count_list xs x = 1"
  by (induction xs) auto

lemma parse_split:
  assumes "extract_links e (deny_domains sp) r = ls1 @ l # ls2"
  shows "parse e sp r =
     (let (sp1, out1) = parse_links e (resp_url r) sp ls1;
          (sp2, out2) = parse_link e (resp_url r) sp1 l;
          (sp3, out3) = parse_links e (resp_url r) sp2 ls2
      in (sp3, out1 @ out2 @ out3))"
  by (simp add: parse_def assms parse_links_append split_beta)



subsection \<open>The test for denied domains\<close>







lemma parse_links_patches_grow:
  "set (patches sp) \<subseteq> set (patches (fst (parse_links e rurl sp ls)))"
  by (subst parse_links_patches) simp

lemma follow_below:
  "below_limit sp \<Longrightarrow>
   follow e sp u = (sp, [Req \<lparr> url = u, callback = cb_parse, priority = domain_priority e sp u \<rparr>])"
  by (simp add: follow_def)

subsection \<open>Runs and the patch limit\<close>

lemma debian_patch_frame:
  "fst (debian_patch sp p) = sp\<lparr> patches := patches (fst (debian_patch sp p)) \<rparr>"
  by (simp add: debian_patch_def add_patch_def)

lemma debian_patch_limit: "patch_limit (fst (debian_patch sp p)) = patch_limit sp"
  by (subst debian_patch_frame) simp

lemma debian_patch_inv:
  "int (length (patches sp)) \<le> patch_limit sp \<Longrightarrow>
   int (length (patches (fst (debian_patch sp p)))) \<le> patch_limit sp"
  by (simp add: debian_patch_def add_patch_def below_limit_def)

lemma debian_patches_limit: "patch_limit (fst (debian_patches sp ps)) = patch_limit sp"
  by (induction ps arbitrary: sp) (simp_all add: split_beta debian_patch_limit)

lemma debian_patches_inv:
  "int (length (patches sp)) \<le> patch_limit sp \<Longrightarrow>
   int (length (patches (fst (debian_patches sp ps)))) \<le> patch_limit sp"
proof (induction ps arbitrary: sp)
  case Nil
  then show ?case by simp
next
  case (Cons p ps)
  let ?sp1 = "fst (debian_patch sp p)"
  have "int (length (patches ?sp1)) \<le> patch_limit ?sp1"
    using Cons.prems by (simp add: debian_patch_inv debian_patch_limit)
  then have "int (length (patches (fst (debian_patches ?sp1 ps)))) \<le> patch_limit ?sp1"
    by (rule Cons.IH)
  then show ?case by (simp add: split_beta debian_patch_limit)
qed

lemma debian_patches_at_limit: "\<not> below_limit sp \<Longrightarrow> debian_patches sp ps = (sp, [])"
  by (induction ps) (simp_all add: debian_patch_def)

lemma handle_limit: "patch_limit (fst (handle e sp ev)) = patch_limit sp"
  by (cases ev) (simp_all add: parse_def parse_debian_def parse_links_limit debian_patches_limit)

lemma handle_inv:
  "int (length (patches sp)) \<le> patch_limit sp \<Longrightarrow>
   int (length (patches (fst (handle e sp ev)))) \<le> patch_limit sp"
  by (cases ev) (simp_all add: parse_def parse_debian_def parse_links_inv debian_patches_inv)

lemma handle_at_limit: "\<not> below_limit sp \<Longrightarrow> handle e sp ev = (sp, [])"
  by (cases ev) (simp_all add: parse_def parse_debian_def parse_links_at_limit debian_patches_at_limit)

lemma run_limit: "patch_limit (fst (run e sp evs)) = patch_limit sp"
  by (induction evs arbitrary: sp) (simp_all add: split_beta handle_limit)

lemma run_inv:
  "int (length (patches sp)) \<le> patch_limit sp \<Longrightarrow>
   int (length (patches (fst (run e sp evs)))) \<le> patch_limit sp"
proof (induction evs arbitrary: sp)
  case Nil
  then show ?case by simp
next
  case (Cons ev evs)
  let ?sp1 = "fst (handle e sp ev)"
  have "int (length (patches ?sp1)) \<le> patch_limit ?sp1"
    using Cons.prems by (simp add: handle_inv handle_limit)
  then have "int (length (patches (fst (run e ?sp1 evs)))) \<le> patch_limit ?sp1"
    by (rule Cons.IH)
  then show ?case by (simp add: split_beta handle_limit)
qed

lemma run_at_limit: "\<not> below_limit sp \<Longrightarrow> run e sp evs = (sp, [])"
  by (induction evs) (simp_all add: handle_at_limit)

text \<open>How many patches a page yields.\<close>

lemma patch_links_in_Cons:
  "patch_links_in e rurl (l # ls) =
     (case truthy (is_patch e (urljoin e rurl l)) of
        None \<Rightarrow> patch_links_in e rurl ls
      | Some p \<Rightarrow> p # patch_links_in e rurl ls)"
  by (simp add: patch_links_in_def List.map_filter_simps split: option.splits)

lemma follow_items: "item_links (snd (follow e sp u)) = []" "fst (follow e sp u) = sp"
  by (simp_all add: follow_def)

lemma card_insert_new_diff:
  "finite A \<Longrightarrow> p \<notin> B \<Longrightarrow> card (insert p A - B) = Suc (card (A - insert p B))"
proof -
  assume f: "finite A" and n: "p \<notin> B"
  have "insert p A - B = insert p (A - insert p B)" using n by auto
  moreover have "p \<notin> A - insert p B" by simp
  moreover have "finite (A - insert p B)" using f by simp
  ultimately show ?thesis by simp
qed

lemma parse_links_count:
  "length (item_links (snd (parse_links e rurl sp ls))) =
     min (nat (patch_limit sp - int (length (patches sp))))
         (card (set (patch_links_in e rurl ls) - set (patches sp)))"
proof (induction ls arbitrary: sp)
  case Nil
  then show ?case by (simp add: patch_links_in_def List.map_filter_simps)
next
  case (Cons l ls)
  let ?t = "truthy (is_patch e (urljoin e rurl l))"
  show ?case
  proof (cases ?t)
    case None
    then have "parse_link e rurl sp l = follow e sp (urljoin e rurl l)"
      by (rule parse_link_other)
    then show ?thesis
      using Cons.IH [of sp] None
      by (simp add: split_beta item_links_append follow_items patch_links_in_Cons)
  next
    case (Some p)
    show ?thesis
    proof (cases "below_limit sp")
      case False
      then have "parse_links e rurl sp (l # ls) = (sp, [])"
        by (rule parse_links_at_limit)
      moreover have "nat (patch_limit sp - int (length (patches sp))) = 0"
        using False by (simp add: below_limit_def)
      ultimately show ?thesis by simp
    next
      case True
      show ?thesis
      proof (cases "p \<in> set (patches sp)")
        case True
        then have "parse_link e rurl sp l = (sp, [])"
          using Some by (simp add: parse_link_seen)
        moreover have "insert p (set (patch_links_in e rurl ls)) - set (patches sp)
            = set (patch_links_in e rurl ls) - set (patches sp)"
          using True by auto
        ultimately show ?thesis
          using Cons.IH [of sp] Some by (simp add: patch_links_in_Cons)
      next
        case False
        have step: "parse_link e rurl sp l =
            (add_patch sp p, [Item \<lparr> patch_link = p, reaching_path = rurl \<rparr>])"
          using Some True False by (rule parse_link_new)
        have k: "nat (patch_limit sp - int (length (patches sp)))
            = Suc (nat (patch_limit sp - int (length (patches sp)) - 1))"
          using True by (simp add: below_limit_def)
        have c: "card (insert p (set (patch_links_in e rurl ls)) - set (patches sp))
            = Suc (card (set (patch_links_in e rurl ls) - insert p (set (patches sp))))"
          using False by (simp add: card_insert_new_diff)
        have "length (item_links (snd (parse_links e rurl sp (l # ls)))) =
            Suc (length (item_links (snd (parse_links e rurl (add_patch sp p) ls))))"
          by (simp add: step split_beta)
        also have "\<dots> = Suc (min (nat (patch_limit sp - int (length (patches sp)) - 1))
            (card (set (patch_links_in e rurl ls) - insert p (set (patches sp)))))"
          by (simp add: Cons.IH [of "add_patch sp p"] add_patch_simps)
        also have "\<dots> = min (nat (patch_limit sp - int (length (patches sp))))
            (card (set (patch_links_in e rurl (l # ls)) - set (patches sp)))"
          by (simp add: patch_links_in_Cons Some c k)
        finally show ?thesis .
      qed
    qed
  qed
qed

lemma parse_link_only_items:
  "truthy (is_patch e (urljoin e rurl l)) \<noteq> None \<Longrightarrow>
   length (snd (parse_link e rurl sp l)) = length (item_links (snd (parse_link e rurl sp l)))"
  by (auto simp: parse_link_def follow_def Let_def split: option.splits)

lemma parse_links_only_items:
  "list_all (\<lambda>l. truthy (is_patch e (urljoin e rurl l)) \<noteq> None) ls \<Longrightarrow>
   length (snd (parse_links e rurl sp ls)) = length (item_links (snd (parse_links e rurl sp ls)))"
  by (induction ls arbitrary: sp)
     (simp_all add: split_beta item_links_append parse_link_only_items)


text \<open>
  Along a run too, the patches added are the patch links of the items yielded. A run
  that goes through \<open>parse\<close> alone yields no patch link twice, and none that was in
  \<open>patches\<close> before.
\<close>

lemma debian_patches_patches:
  "patches (fst (debian_patches sp ps)) = patches sp @ item_links (snd (debian_patches sp ps))"
  by (induction ps arbitrary: sp)
     (simp_all add: split_beta debian_patch_def add_patch_def item_links_append)

lemma handle_patches:
  "patches (fst (handle e sp ev)) = patches sp @ item_links (snd (handle e sp ev))"
  by (cases ev) (simp_all add: parse_def parse_debian_def parse_links_patches debian_patches_patches)

lemma run_patches:
  "patches (fst (run e sp evs)) = patches sp @ item_links (snd (run e sp evs))"
  by (induction evs arbitrary: sp) (simp_all add: split_beta handle_patches item_links_append)

lemma run_only_parse_distinct:
  "only_parse evs \<Longrightarrow>
   distinct (item_links (snd (run e sp evs)))
   \<and> set (item_links (snd (run e sp evs))) \<inter> set (patches sp) = {}"
proof (induction evs arbitrary: sp rule: only_parse.induct)
  case 1
  then show ?case by simp
next
  case (2 r evs)
  let ?sp1 = "fst (parse e sp r)"
  let ?o1 = "item_links (snd (parse e sp r))"
  let ?o2 = "item_links (snd (run e ?sp1 evs))"
  have a: "distinct ?o1 \<and> set ?o1 \<inter> set (patches sp) = {}"
    unfolding parse_def by (rule parse_links_items_new)
  have b: "distinct ?o2 \<and> set ?o2 \<inter> set (patches ?sp1) = {}"
    using "2.prems" by (simp add: "2.IH")
  have c: "patches ?sp1 = patches sp @ ?o1"
    unfolding parse_def by (rule parse_links_patches)
  have "item_links (snd (run e sp (Parse r # evs))) = ?o1 @ ?o2"
    by (simp add: split_beta item_links_append)
  moreover have "distinct (?o1 @ ?o2)"
    using a b c by auto
  moreover have "set (?o1 @ ?o2) \<inter> set (patches sp) = {}"
    using a b c by auto
  ultimately show ?case by simp
next
  case (3 r evs)
  then show ?case by simp
qed

subsection \<open>The first requests of a spider\<close>

text \<open>One request for each entrypoint URL of the vulnerability, in order.\<close>

lemma start_requests_urls:
  "map url (start_requests (DefaultSpider_init v kw)) = entrypoint_URLs v"
  by (simp add: start_requests_def DefaultSpider_init_def comp_def if_distrib map_idI cong: if_cong)

lemma start_requests_length:
  "length (start_requests (DefaultSpider_init v kw)) = length (entrypoint_URLs v)"
  by (simp add: start_requests_def DefaultSpider_init_def)

subsection \<open>Priority of requests\<close>

text \<open>
  Claim C5. \<open>domain_priority\<close> returns 1 exactly for the URLs whose hostname is one of
  \<open>important_domains\<close> and 0 for every other URL (also for one with no hostname), and
  every request that \<open>parse\<close> yields carries the priority of its own URL.
\<close>

theorem parse_request_priority:
  "domain_priority e sp u =
     (if \<exists>d. hostname e u = Some d \<and> d \<in> set (important_domains sp) then 1 else 0)
   \<and> (\<forall>q. Req q \<in> set (snd (parse e sp r)) \<longrightarrow>
          priority q =
            (if \<exists>d. hostname e (url q) = Some d \<and> d \<in> set (important_domains sp)
             then 1 else 0))"
proof (intro conjI allI impI)
  show "domain_priority e sp u =
     (if \<exists>d. hostname e u = Some d \<and> d \<in> set (important_domains sp) then 1 else 0)"
    by (rule domain_priority_iff)
next
  fix q assume "Req q \<in> set (snd (parse e sp r))"
  then have "priority q = domain_priority e sp (url q)"
    unfolding parse_def by (rule parse_links_priority)
  then show "priority q =
            (if \<exists>d. hostname e (url q) = Some d \<and> d \<in> set (important_domains sp)
             then 1 else 0)"
    by (simp only: domain_priority_iff)
qed


theorem parse_request_priority_witness:
  "Req \<lparr> url = ''https://github.com/o/r/issues/7'', callback = cb_parse, priority = 1 \<rparr>
     \<in> set (snd (parse (ex_env ex_links []) (ex_spider 2) ex_page))
   \<and> (\<exists>d. hostname (ex_env ex_links []) ''https://github.com/o/r/issues/7'' = Some d
            \<and> d \<in> set (important_domains (ex_spider 2)))"
proof -
  let ?q = "\<lparr> url = ''https://github.com/o/r/issues/7'', callback = cb_parse, priority = 1 \<rparr>"
  have h: "Req ?q \<in> set (snd (parse (ex_env ex_links []) (ex_spider 2) ex_page))"
    by code_simp
  have "priority ?q =
          (if \<exists>d. hostname (ex_env ex_links []) (url ?q) = Some d
                 \<and> d \<in> set (important_domains (ex_spider 2))
           then 1 else 0)"
    using parse_request_priority [where e = "ex_env ex_links []" and sp = "ex_spider 2"
        and r = ex_page] h by blast
  then have "\<exists>d. hostname (ex_env ex_links []) ''https://github.com/o/r/issues/7'' = Some d
            \<and> d \<in> set (important_domains (ex_spider 2))"
    by (simp split: if_splits)
  with h show ?thesis by blast
qed

subsection \<open>A new patch link\<close>

text \<open>
  Claim C3, as the code has it. Let \<open>l\<close> be a link extracted from the page \<open>r\<close> and \<open>sp1\<close>
  the spider when the loop of \<open>parse\<close> reaches it. If \<open>is_patch\<close> returns the patch link
  \<open>p\<close> for \<open>l\<close>, the number of patches is below \<open>patch_limit\<close> and \<open>p\<close> is not among the
  patches found so far, then the iteration yields exactly one item, the \<open>Patch\<close> with
  \<open>patch_link = p\<close> and \<open>reaching_path\<close> the URL of the page, and it appends \<open>p\<close> to
  \<open>patches\<close>, whose length grows by one. The page as a whole yields exactly one item
  with that patch link, after what the links before \<open>l\<close> yield, and the spider that
  \<open>parse\<close> returns holds \<open>p\<close> among its patches.
\<close>

theorem parse_new_patch:
  assumes "extract_links e (deny_domains sp) r = ls1 @ l # ls2"
    and "parse_links e (resp_url r) sp ls1 = (sp1, out1)"
    and "truthy (is_patch e (urljoin e (resp_url r) l)) = Some p"
    and "below_limit sp1"
    and "p \<notin> set (patches sp1)"
  shows "parse_link e (resp_url r) sp1 l =
           (add_patch sp1 p, [Item \<lparr> patch_link = p, reaching_path = resp_url r \<rparr>])
       \<and> patches (add_patch sp1 p) = patches sp1 @ [p]
       \<and> length (patches (add_patch sp1 p)) = length (patches sp1) + 1
       \<and> snd (parse e sp r) =
           out1 @ Item \<lparr> patch_link = p, reaching_path = resp_url r \<rparr>
                # snd (parse_links e (resp_url r) (add_patch sp1 p) ls2)
       \<and> fst (parse e sp r) = fst (parse_links e (resp_url r) (add_patch sp1 p) ls2)
       \<and> p \<in> set (patches (fst (parse e sp r)))
       \<and> count_list (item_links (snd (parse e sp r))) p = 1"
proof -
  let ?u = "resp_url r"
  let ?it = "Item \<lparr> patch_link = p, reaching_path = ?u \<rparr>"
  let ?rest = "snd (parse_links e ?u (add_patch sp1 p) ls2)"
  have step: "parse_link e ?u sp1 l = (add_patch sp1 p, [?it])"
    using assms(3-5) by (rule parse_link_new)
  have out: "snd (parse e sp r) = out1 @ ?it # ?rest"
    by (simp add: parse_split [OF assms(1)] assms(2) step split_beta)
  have st: "fst (parse e sp r) = fst (parse_links e ?u (add_patch sp1 p) ls2)"
    by (simp add: parse_split [OF assms(1)] assms(2) step split_beta)
  have "p \<in> set (patches (add_patch sp1 p))"
    by (simp add: add_patch_def)
  then have mem: "p \<in> set (patches (fst (parse e sp r)))"
    using parse_links_patches_grow [of "add_patch sp1 p" e ?u ls2] st by auto
  have "distinct (item_links (snd (parse e sp r)))"
    unfolding parse_def using parse_links_items_new by blast
  moreover have "p \<in> set (item_links (snd (parse e sp r)))"
    by (simp add: out item_links_append)
  ultimately have "count_list (item_links (snd (parse e sp r))) p = 1"
    by (simp add: distinct_count_list_one)
  with step out st mem show ?thesis by (simp add: add_patch_def)
qed

theorem parse_new_patch_witness:
  "extract_links (ex_env_commit ex_commit_links) (deny_domains (ex_spider 2)) ex_page =
     [''https://example.org/notes''] @ ''https://github.com/o/r/commit/1'' # []
   \<and> truthy (is_patch (ex_env_commit ex_commit_links)
         (urljoin (ex_env_commit ex_commit_links) (resp_url ex_page)
            ''https://github.com/o/r/commit/1'')) = Some ''https://github.com/o/r/commit/1.patch''
   \<and> below_limit (ex_spider 2)
   \<and> ''https://github.com/o/r/commit/1.patch'' \<notin> set (patches (ex_spider 2))
   \<and> snd (parse (ex_env_commit ex_commit_links) (ex_spider 2) ex_page) =
       [Req \<lparr> url = ''https://example.org/notes'', callback = cb_parse, priority = 0 \<rparr>,
        Item \<lparr> patch_link = ''https://github.com/o/r/commit/1.patch'',
               reaching_path = resp_url ex_page \<rparr>]
   \<and> ''https://github.com/o/r/commit/1.patch''
         \<in> set (patches (fst (parse (ex_env_commit ex_commit_links) (ex_spider 2) ex_page)))
   \<and> count_list (item_links (snd (parse (ex_env_commit ex_commit_links) (ex_spider 2) ex_page)))
         ''https://github.com/o/r/commit/1.patch'' = 1"
proof -
  let ?e = "ex_env_commit ex_commit_links"
  let ?l = "''https://github.com/o/r/commit/1''"
  let ?p = "''https://github.com/o/r/commit/1.patch''"
  let ?q = "Req \<lparr> url = ''https://example.org/notes'', callback = cb_parse, priority = 0 \<rparr>"
  have h1: "extract_links ?e (deny_domains (ex_spider 2)) ex_page =
     [''https://example.org/notes''] @ ?l # []"
    by code_simp
  have h2: "parse_links ?e (resp_url ex_page) (ex_spider 2) [''https://example.org/notes''] =
      (ex_spider 2, [?q])"
    by code_simp
  have h3: "truthy (is_patch ?e (urljoin ?e (resp_url ex_page) ?l)) = Some ?p"
    by code_simp
  have h4: "below_limit (ex_spider 2)"
    by code_simp
  have h5: "?p \<notin> set (patches (ex_spider 2))"
    by code_simp
  note inst = parse_new_patch [OF h1 h2 h3 h4 h5]
  from inst have "snd (parse ?e (ex_spider 2) ex_page) =
      [?q] @ Item \<lparr> patch_link = ?p, reaching_path = resp_url ex_page \<rparr>
        # snd (parse_links ?e (resp_url ex_page) (add_patch (ex_spider 2) ?p) [])"
    by blast
  then have out: "snd (parse ?e (ex_spider 2) ex_page) =
      [?q, Item \<lparr> patch_link = ?p, reaching_path = resp_url ex_page \<rparr>]"
    by simp
  from inst h1 h3 h4 h5 out show ?thesis by blast
qed

text \<open>
  The claim as it was stated tests the link itself and takes it for the patch link.
  \<open>parse\<close> tests and records what \<open>is_patch\<close> returns. Here the link of a commit is
  not among the patches, but its patch link is: the link classifies as a patch, the
  limit is not reached, and \<open>parse\<close> yields nothing and adds nothing.
\<close>

theorem link_not_patch_link_counterexample:
  "extract_links (ex_env_commit [''https://github.com/o/r/commit/1''])
       (deny_domains ex_spider_seen) ex_page = [''https://github.com/o/r/commit/1'']
   \<and> is_patch (ex_env_commit [''https://github.com/o/r/commit/1''])
        (urljoin (ex_env_commit [''https://github.com/o/r/commit/1'']) (resp_url ex_page)
           ''https://github.com/o/r/commit/1'') = Some ''https://github.com/o/r/commit/1.patch''
   \<and> below_limit ex_spider_seen
   \<and> ''https://github.com/o/r/commit/1'' \<notin> set (patches ex_spider_seen)
   \<and> parse (ex_env_commit [''https://github.com/o/r/commit/1'']) ex_spider_seen ex_page =
       (ex_spider_seen, [])"
  by code_simp

subsection \<open>A patch link seen before\<close>

text \<open>
  Claim C9. If the link \<open>l\<close> classifies as the patch link \<open>p\<close> and \<open>p\<close> is already among
  the patches when the loop reaches \<open>l\<close>, then the iteration yields nothing, neither a
  \<open>Patch\<close> nor a \<open>Request\<close>, and leaves the spider as it was: the page yields what the
  links before and after \<open>l\<close> yield. This holds below the limit and at the limit.
\<close>

theorem parse_seen_patch:
  assumes "extract_links e (deny_domains sp) r = ls1 @ l # ls2"
    and "parse_links e (resp_url r) sp ls1 = (sp1, out1)"
    and "truthy (is_patch e (urljoin e (resp_url r) l)) = Some p"
    and "p \<in> set (patches sp1)"
  shows "parse_link e (resp_url r) sp1 l = (sp1, [])
       \<and> snd (parse e sp r) = out1 @ snd (parse_links e (resp_url r) sp1 ls2)
       \<and> fst (parse e sp r) = fst (parse_links e (resp_url r) sp1 ls2)"
proof -
  have step: "parse_link e (resp_url r) sp1 l = (sp1, [])"
    using assms(3,4) by (rule parse_link_seen)
  then show ?thesis
    by (simp add: parse_split [OF assms(1)] assms(2) split_beta)
qed

theorem parse_seen_patch_witness:
  "extract_links (ex_env ex_links []) (deny_domains ex_spider_seen) ex_page =
     [''https://example.org/notes'']
       @ ''https://github.com/o/r/commit/1.patch''
       # [''https://github.com/o/r/issues/7'', ''https://github.com/o/r/commit/2.patch'',
          ''https://github.com/o/r/commit/3.patch'']
   \<and> ''https://github.com/o/r/commit/1.patch'' \<in> set (patches ex_spider_seen)
   \<and> below_limit ex_spider_seen
   \<and> parse_link (ex_env ex_links []) (resp_url ex_page) ex_spider_seen
         ''https://github.com/o/r/commit/1.patch'' = (ex_spider_seen, [])"
proof -
  let ?e = "ex_env ex_links []"
  let ?p = "''https://github.com/o/r/commit/1.patch''"
  have h1: "extract_links ?e (deny_domains ex_spider_seen) ex_page =
     [''https://example.org/notes''] @ ?p
       # [''https://github.com/o/r/issues/7'', ''https://github.com/o/r/commit/2.patch'',
          ''https://github.com/o/r/commit/3.patch'']"
    by code_simp
  have h2: "parse_links ?e (resp_url ex_page) ex_spider_seen [''https://example.org/notes''] =
      (ex_spider_seen,
       [Req \<lparr> url = ''https://example.org/notes'', callback = cb_parse, priority = 0 \<rparr>])"
    by code_simp
  have h3: "truthy (is_patch ?e (urljoin ?e (resp_url ex_page) ?p)) = Some ?p"
    by code_simp
  have h4: "?p \<in> set (patches ex_spider_seen)"
    by code_simp
  have h5: "below_limit ex_spider_seen"
    by code_simp
  from parse_seen_patch [OF h1 h2 h3 h4] h1 h4 h5 show ?thesis
    by blast
qed


subsection \<open>Denied domains\<close>







subsection \<open>The patch limit\<close>

text \<open>
  Claim C1, as the code has it. If the number of collected patches is at most
  \<open>patch_limit\<close> before a run (as it is for a new spider whose \<open>patch_limit\<close> is not
  negative), it is at most \<open>patch_limit\<close> after every page of the run and after every
  link of a page, whichever callback parses the page, and \<open>patch_limit\<close> itself never
  changes. Once the number of patches has reached \<open>patch_limit\<close>, no link of the current
  page and no later page yields anything, neither an item nor a request. With
  \<open>patch_limit = 2\<close> and no patch collected yet, a page that offers at least two
  different patch links yields exactly two \<open>Patch\<close> items; it yields exactly two
  results in all when every extracted link is a patch link. A link that is no patch
  and that the loop reaches below the limit yields exactly one request, for that link
  and with the priority of its domain, and leaves the spider as it was.
\<close>

theorem patch_limit_respected:
  "(int (length (patches sp)) \<le> patch_limit sp \<longrightarrow>
      int (length (patches (fst (run e sp evs)))) \<le> patch_limit sp
      \<and> int (length (patches (fst (parse_links e rurl (fst (run e sp evs)) ls))))
            \<le> patch_limit sp
      \<and> int (length (patches (fst (debian_patches (fst (run e sp evs)) ps))))
            \<le> patch_limit sp
      \<and> patch_limit (fst (run e sp evs)) = patch_limit sp)
   \<and> (\<not> below_limit sp \<longrightarrow>
        parse_links e rurl sp ls = (sp, []) \<and> debian_patches sp ps = (sp, [])
        \<and> run e sp evs = (sp, []))
   \<and> (patch_limit sp = 2 \<and> patches sp = []
        \<and> 2 \<le> card (set (patch_links_in e (resp_url r) (extract_links e (deny_domains sp) r)))
      \<longrightarrow>
        length (item_links (snd (parse e sp r))) = 2
        \<and> (list_all (\<lambda>l. truthy (is_patch e (urljoin e (resp_url r) l)) \<noteq> None)
                    (extract_links e (deny_domains sp) r)
             \<longrightarrow> length (snd (parse e sp r)) = 2))
   \<and> (extract_links e (deny_domains sp) r = ls1 @ l # ls2
        \<and> parse_links e (resp_url r) sp ls1 = (sp1, out1)
        \<and> truthy (is_patch e (urljoin e (resp_url r) l)) = None
        \<and> below_limit sp1
      \<longrightarrow>
        parse_link e (resp_url r) sp1 l =
          (sp1, [Req \<lparr> url = urljoin e (resp_url r) l, callback = cb_parse,
                       priority = domain_priority e sp1 (urljoin e (resp_url r) l) \<rparr>])
        \<and> snd (parse e sp r) =
            out1 @ Req \<lparr> url = urljoin e (resp_url r) l, callback = cb_parse,
                          priority = domain_priority e sp1 (urljoin e (resp_url r) l) \<rparr>
                 # snd (parse_links e (resp_url r) sp1 ls2)
        \<and> fst (parse e sp r) = fst (parse_links e (resp_url r) sp1 ls2))"
proof (intro conjI impI)
  assume "int (length (patches sp)) \<le> patch_limit sp"
  then show "int (length (patches (fst (run e sp evs)))) \<le> patch_limit sp"
    by (rule run_inv)
next
  assume "int (length (patches sp)) \<le> patch_limit sp"
  then have "int (length (patches (fst (run e sp evs)))) \<le> patch_limit (fst (run e sp evs))"
    by (simp add: run_inv run_limit)
  then have "int (length (patches (fst (parse_links e rurl (fst (run e sp evs)) ls))))
      \<le> patch_limit (fst (run e sp evs))"
    by (rule parse_links_inv)
  then show "int (length (patches (fst (parse_links e rurl (fst (run e sp evs)) ls))))
      \<le> patch_limit sp"
    by (simp add: run_limit)
next
  assume "int (length (patches sp)) \<le> patch_limit sp"
  then have "int (length (patches (fst (run e sp evs)))) \<le> patch_limit (fst (run e sp evs))"
    by (simp add: run_inv run_limit)
  then have "int (length (patches (fst (debian_patches (fst (run e sp evs)) ps))))
      \<le> patch_limit (fst (run e sp evs))"
    by (rule debian_patches_inv)
  then show "int (length (patches (fst (debian_patches (fst (run e sp evs)) ps))))
      \<le> patch_limit sp"
    by (simp add: run_limit)
next
  show "patch_limit (fst (run e sp evs)) = patch_limit sp"
    by (rule run_limit)
next
  assume "\<not> below_limit sp"
  then show "parse_links e rurl sp ls = (sp, [])"
    by (rule parse_links_at_limit)
next
  assume "\<not> below_limit sp"
  then show "debian_patches sp ps = (sp, [])"
    by (rule debian_patches_at_limit)
next
  assume "\<not> below_limit sp"
  then show "run e sp evs = (sp, [])"
    by (rule run_at_limit)
next
  assume h: "patch_limit sp = 2 \<and> patches sp = []
        \<and> 2 \<le> card (set (patch_links_in e (resp_url r) (extract_links e (deny_domains sp) r)))"
  have "length (item_links (snd (parse e sp r))) =
      min (nat (patch_limit sp - int (length (patches sp))))
        (card (set (patch_links_in e (resp_url r) (extract_links e (deny_domains sp) r))
               - set (patches sp)))"
    unfolding parse_def by (rule parse_links_count)
  with h show items: "length (item_links (snd (parse e sp r))) = 2"
    by simp
  assume "list_all (\<lambda>l. truthy (is_patch e (urljoin e (resp_url r) l)) \<noteq> None)
                    (extract_links e (deny_domains sp) r)"
  then have "length (snd (parse e sp r)) = length (item_links (snd (parse e sp r)))"
    unfolding parse_def by (rule parse_links_only_items)
  with items show "length (snd (parse e sp r)) = 2"
    by simp
next
  assume h: "extract_links e (deny_domains sp) r = ls1 @ l # ls2
        \<and> parse_links e (resp_url r) sp ls1 = (sp1, out1)
        \<and> truthy (is_patch e (urljoin e (resp_url r) l)) = None
        \<and> below_limit sp1"
  let ?u = "resp_url r"
  let ?q = "Req \<lparr> url = urljoin e ?u l, callback = cb_parse,
                   priority = domain_priority e sp1 (urljoin e ?u l) \<rparr>"
  from h have "parse_link e ?u sp1 l = follow e sp1 (urljoin e ?u l)"
    by (simp add: parse_link_other)
  with h show step: "parse_link e ?u sp1 l = (sp1, [?q])"
    by (simp add: follow_below)
  from h have split: "extract_links e (deny_domains sp) r = ls1 @ l # ls2"
    by simp
  from h show "snd (parse e sp r) = out1 @ ?q # snd (parse_links e ?u sp1 ls2)"
    by (simp add: parse_split [OF split] step split_beta)
  from h show "fst (parse e sp r) = fst (parse_links e ?u sp1 ls2)"
    by (simp add: parse_split [OF split] step split_beta)
qed

theorem patch_limit_respected_witness:
  "int (length (patches (ex_spider 2))) \<le> patch_limit (ex_spider 2)
   \<and> int (length (patches (fst (run (ex_env ex_patch_links [ex_debian_patch]) (ex_spider 2)
               [Parse ex_page, ParseDebian ex_debian_page])))) \<le> patch_limit (ex_spider 2)
   \<and> \<not> below_limit (fst (parse (ex_env ex_patch_links [ex_debian_patch]) (ex_spider 2) ex_page))
   \<and> snd (run (ex_env ex_patch_links [ex_debian_patch])
            (fst (parse (ex_env ex_patch_links [ex_debian_patch]) (ex_spider 2) ex_page))
            [Parse ex_page, ParseDebian ex_debian_page]) = []
   \<and> patch_limit (ex_spider 2) = 2 \<and> patches (ex_spider 2) = []
   \<and> 2 \<le> card (set (patch_links_in (ex_env ex_patch_links [ex_debian_patch]) (resp_url ex_page)
                (extract_links (ex_env ex_patch_links [ex_debian_patch])
                   (deny_domains (ex_spider 2)) ex_page)))
   \<and> list_all (\<lambda>l. truthy (is_patch (ex_env ex_patch_links [ex_debian_patch])
                        (urljoin (ex_env ex_patch_links [ex_debian_patch]) (resp_url ex_page) l))
                    \<noteq> None)
        (extract_links (ex_env ex_patch_links [ex_debian_patch]) (deny_domains (ex_spider 2)) ex_page)
   \<and> length (snd (parse (ex_env ex_patch_links [ex_debian_patch]) (ex_spider 2) ex_page)) = 2
   \<and> extract_links (ex_env ex_links []) (deny_domains (ex_spider 2)) ex_page =
       [] @ ''https://example.org/notes''
         # [''https://github.com/o/r/commit/1.patch'', ''https://github.com/o/r/issues/7'',
            ''https://github.com/o/r/commit/2.patch'', ''https://github.com/o/r/commit/3.patch'']
   \<and> truthy (is_patch (ex_env ex_links [])
         (urljoin (ex_env ex_links []) (resp_url ex_page) ''https://example.org/notes'')) = None
   \<and> parse_link (ex_env ex_links []) (resp_url ex_page) (ex_spider 2)
         ''https://example.org/notes'' =
       (ex_spider 2,
        [Req \<lparr> url = ''https://example.org/notes'', callback = cb_parse, priority = 0 \<rparr>])"
proof -
  let ?e = "ex_env ex_patch_links [ex_debian_patch]"
  let ?sp = "ex_spider 2"
  let ?sp' = "fst (parse ?e ?sp ex_page)"
  let ?evs = "[Parse ex_page, ParseDebian ex_debian_page]"
  have h1: "int (length (patches ?sp)) \<le> patch_limit ?sp"
    by code_simp
  have h2: "\<not> below_limit ?sp'"
    by code_simp
  have h3: "patch_limit ?sp = 2 \<and> patches ?sp = []
     \<and> 2 \<le> card (set (patch_links_in ?e (resp_url ex_page)
                (extract_links ?e (deny_domains ?sp) ex_page)))"
    by code_simp
  have h4: "list_all (\<lambda>l. truthy (is_patch ?e (urljoin ?e (resp_url ex_page) l)) \<noteq> None)
        (extract_links ?e (deny_domains ?sp) ex_page)"
    by code_simp
  have a: "int (length (patches (fst (run ?e ?sp ?evs)))) \<le> patch_limit ?sp"
    using patch_limit_respected [where sp = ?sp and e = ?e and evs = ?evs] h1 by blast
  have b: "run ?e ?sp' ?evs = (?sp', [])"
    using patch_limit_respected [where sp = ?sp' and e = ?e and evs = ?evs] h2 by blast
  have c: "length (snd (parse ?e ?sp ex_page)) = 2"
    using patch_limit_respected [where sp = ?sp and e = ?e and r = ex_page] h3 h4 by blast
  let ?f = "ex_env ex_links []"
  let ?n = "''https://example.org/notes''"
  have h5: "extract_links ?f (deny_domains ?sp) ex_page =
       [] @ ?n
         # [''https://github.com/o/r/commit/1.patch'', ''https://github.com/o/r/issues/7'',
            ''https://github.com/o/r/commit/2.patch'', ''https://github.com/o/r/commit/3.patch'']"
    by code_simp
  have h6: "parse_links ?f (resp_url ex_page) ?sp [] = (?sp, [])"
    by simp
  have h7: "truthy (is_patch ?f (urljoin ?f (resp_url ex_page) ?n)) = None"
    by code_simp
  have h8: "below_limit ?sp"
    by code_simp
  have p0: "domain_priority ?f ?sp ?n = 0"
    by code_simp
  have u0: "urljoin ?f (resp_url ex_page) ?n = ?n"
    by code_simp
  have "parse_link ?f (resp_url ex_page) ?sp ?n =
      (?sp, [Req \<lparr> url = urljoin ?f (resp_url ex_page) ?n, callback = cb_parse,
                    priority = domain_priority ?f ?sp (urljoin ?f (resp_url ex_page) ?n) \<rparr>])"
    using patch_limit_respected [where sp = ?sp and e = ?f and r = ex_page and ?sp1.0 = ?sp
        and ?ls1.0 = "[]" and l = ?n and ?out1.0 = "[]"] h5 h6 h7 h8
    by blast
  then have d: "parse_link ?f (resp_url ex_page) ?sp ?n =
      (?sp, [Req \<lparr> url = ?n, callback = cb_parse, priority = 0 \<rparr>])"
    by (simp only: p0 u0)
  from h1 h2 h3 h4 a b c have
    "int (length (patches ?sp)) \<le> patch_limit ?sp
     \<and> int (length (patches (fst (run ?e ?sp ?evs)))) \<le> patch_limit ?sp
     \<and> \<not> below_limit ?sp'
     \<and> snd (run ?e ?sp' ?evs) = []
     \<and> patch_limit ?sp = 2 \<and> patches ?sp = []
     \<and> 2 \<le> card (set (patch_links_in ?e (resp_url ex_page)
                (extract_links ?e (deny_domains ?sp) ex_page)))
     \<and> list_all (\<lambda>l. truthy (is_patch ?e (urljoin ?e (resp_url ex_page) l)) \<noteq> None)
          (extract_links ?e (deny_domains ?sp) ex_page)
     \<and> length (snd (parse ?e ?sp ex_page)) = 2"
    by simp
  with h5 h7 d show ?thesis by blast
qed

text \<open>
  The claim as it was stated counts every result of the page. A page with patch
  links and other links yields a request for each other link met before the limit is
  reached: here two requests and two patches, four results with \<open>patch_limit = 2\<close>.
\<close>

theorem two_results_counterexample:
  "patch_limit (ex_spider 2) = 2 \<and> patches (ex_spider 2) = []
   \<and> 2 \<le> card (set (patch_links_in (ex_env ex_links []) (resp_url ex_page)
                (extract_links (ex_env ex_links []) (deny_domains (ex_spider 2)) ex_page)))
   \<and> length (snd (parse (ex_env ex_links []) (ex_spider 2) ex_page)) = 4"
  by code_simp

text \<open>
  A negative \<open>patch_limit\<close> is below the number of patches from the start; nothing is
  ever collected then.
\<close>

lemma negative_patch_limit:
  "patch_limit (ex_spider (- 1)) = - 1
   \<and> int (length (patches (fst (run (ex_env ex_links []) (ex_spider (- 1)) [Parse ex_page])))) = 0"
  by code_simp

subsection \<open>One patch per patch link\<close>

text \<open>
  Claim C2. \<open>parse\<close> yields a patch only when its link is not in \<open>patches\<close>, so a run
  that uses \<open>parse\<close> alone yields every patch link at most once
  (\<open>run_only_parse_distinct\<close>). \<open>parse_debian\<close> has no such test: here the page yields
  the patch \<open>1.patch\<close> and the Debian tracker reports the same patch, which is yielded a
  second time.
\<close>

theorem parse_debian_duplicate_patch:
  "item_links (snd (run (ex_env ex_patch_links [ex_debian_patch]) (ex_spider 100)
                     [Parse ex_page, ParseDebian ex_debian_page])) =
     [''https://github.com/o/r/commit/1.patch'', ''https://github.com/o/r/commit/2.patch'',
      ''https://github.com/o/r/commit/3.patch'', ''https://github.com/o/r/commit/1.patch'']"
  by code_simp


subsection \<open>The first requests for a generic advisory\<close>

text \<open>
  Claim C4. \<open>start_requests\<close> yields one request for each entrypoint URL of the
  vulnerability, in order (\<open>start_requests_urls\<close>, \<open>start_requests_length\<close>), whatever
  its kind; it never reads \<open>base_url\<close>. For a generic advisory whose list of entrypoint
  URLs is empty it yields no request, where one request for \<open>base_url\<close> is expected.
\<close>

theorem start_requests_generic:
  "kind ex_generic_vuln = Generic
   \<and> base_url ex_generic_vuln = ''https://security-tracker.debian.org/tracker/DSA-4431-1''
   \<and> start_requests (DefaultSpider_init ex_generic_vuln no_kwargs) = []"
  by code_simp


section \<open>Properties of BaseSpider\<close>

text \<open>
  Claim C10. A response that selects no callback by its URL and has no
  \<open>Content-Type\<close> header has no parse callable, and \<open>parse\<close> yields nothing for it.
\<close>

theorem parse_without_content_type:
  "callback_by_url b r = None \<Longrightarrow> headers r ''Content-Type'' = None \<Longrightarrow>
   BaseSpider_callback b r = None \<and> BaseSpider_parse b r = Inr []"
  by (simp add: BaseSpider_parse_def BaseSpider_callback_def callback_by_content_def)

theorem parse_without_content_type_witness:
  "callback_by_url ex_base_env ex_bare_page = None
   \<and> headers ex_bare_page ''Content-Type'' = None
   \<and> BaseSpider_parse ex_base_env ex_bare_page = Inr []"
proof -
  have h1: "callback_by_url ex_base_env ex_bare_page = None"
    by (simp add: ex_base_env_def)
  have h2: "headers ex_bare_page ''Content-Type'' = None"
    by (simp add: ex_bare_page_def)
  from parse_without_content_type [OF h1 h2] h1 h2 show ?thesis by blast
qed


text \<open>With a content type the same page is scraped.\<close>

lemma parse_with_content_type:
  "BaseSpider_parse ex_base_env (ex_bare_page\<lparr> headers := [''Content-Type'' \<mapsto> ''text/html''] \<rparr>)
     = Inr [Str ''CVE-2015-5370'']"
  by (simp add: BaseSpider_parse_def BaseSpider_callback_def callback_by_content_def
      ex_base_env_def ex_bare_page_def parse_default_def generate_items_and_requests_def scrape_def)


section \<open>Properties of the command line program\<close>

text \<open>
  Claim C8, as the code has it. When \<open>create_vuln\<close> does not recognise the identifier,
  \<open>spawn_crawler\<close> returns \<open>False\<close> and starts no crawl, and the program prints that it
  cannot recognise the vulnerability and runs to its end: its exit status is 0.
  When the identifier is recognised, the program starts one crawl with the spider
  built from the vulnerability and the command line, prints that crawling is
  completed, and ends with status 0 as well.
\<close>

theorem unrecognized_vulnerability:
  "(create_vuln (arg_vuln_id a) = None \<longrightarrow>
      spawn_crawler create_vuln a = (False, [])
      \<and> patchfinder_main create_vuln a =
          \<lparr> effects = [Print ''Can't recognize that vulnerability.''], exit_status = 0 \<rparr>)
   \<and> (\<forall>v. create_vuln (arg_vuln_id a) = Some v \<longrightarrow>
      fst (spawn_crawler create_vuln a) = True
      \<and> (\<exists>settings spider.
            patchfinder_main create_vuln a =
              \<lparr> effects = [Crawl settings spider, Print ''Crawling completed.''],
                exit_status = 0 \<rparr>
            \<and> DEPTH_LIMIT settings = arg_depth a
            \<and> spider = DefaultSpider_init v
                 \<lparr> kw_deny_domains = Some (arg_deny_domains a),
                   kw_important_domains = Some (arg_imp_domains a),
                   kw_patch_limit = Some (arg_patch_limit a) \<rparr>))"
  by (simp add: patchfinder_main_def spawn_crawler_def)

theorem unrecognized_vulnerability_witness:
  "ex_create_vuln (arg_vuln_id (ex_args ''FOO-1'')) = None
   \<and> effects (patchfinder_main ex_create_vuln (ex_args ''FOO-1'')) =
       [Print ''Can't recognize that vulnerability.'']
   \<and> ex_create_vuln (arg_vuln_id (ex_args ''CVE-2016-4796'')) = Some ex_vuln
   \<and> fst (spawn_crawler ex_create_vuln (ex_args ''CVE-2016-4796'')) = True"
proof -
  have h1: "ex_create_vuln (arg_vuln_id (ex_args ''FOO-1'')) = None"
    by code_simp
  have h2: "ex_create_vuln (arg_vuln_id (ex_args ''CVE-2016-4796'')) = Some ex_vuln"
    by code_simp
  have a: "patchfinder_main ex_create_vuln (ex_args ''FOO-1'') =
          \<lparr> effects = [Print ''Can't recognize that vulnerability.''], exit_status = 0 \<rparr>"
    using unrecognized_vulnerability [of ex_create_vuln "ex_args ''FOO-1''"] h1 by blast
  have b: "fst (spawn_crawler ex_create_vuln (ex_args ''CVE-2016-4796'')) = True"
    using unrecognized_vulnerability [of ex_create_vuln "ex_args ''CVE-2016-4796''"] h2 by blast
  from h1 h2 a b show ?thesis by simp
qed


text \<open>
  The exit status of the program is the same for an identifier it does not recognise
  and for one it does: it tells nothing about the failure.
\<close>

theorem exit_status_counterexample:
  "ex_create_vuln (arg_vuln_id (ex_args ''FOO-1'')) = None
   \<and> exit_status (patchfinder_main ex_create_vuln (ex_args ''FOO-1'')) = 0
   \<and> exit_status (patchfinder_main ex_create_vuln (ex_args ''CVE-2016-4796'')) = 0"
  by code_simp

section \<open>Properties of alias resolution\<close>

lemma resolve_aliases_result:
  "resolve_aliases a st ids = Inr st1 \<Longrightarrow>
   (\<forall>i \<in> set ids. resolved_aliases st1 i \<noteq> None)
   \<and> (\<forall>i. resolved_aliases st i \<noteq> None \<longrightarrow> resolved_aliases st1 i = resolved_aliases st i)
   \<and> pending_generic st1 = pending_generic st"
proof (induction ids arbitrary: st)
  case Nil
  then show ?case by simp
next
  case (Cons i ids)
  show ?case
  proof (cases "resolved_aliases st i")
    case (Some d)
    with Cons.prems have "resolve_aliases a st ids = Inr st1" by simp
    from Cons.IH [OF this] Some show ?thesis by auto
  next
    case None
    with Cons.prems obtain d where d: "resolve a i = Some d"
      by (auto split: option.splits)
    let ?st = "st\<lparr> resolved_aliases := (resolved_aliases st)(i \<mapsto> d) \<rparr>"
    from Cons.prems None d have "resolve_aliases a ?st ids = Inr st1" by simp
    from Cons.IH [OF this] None show ?thesis
      by (auto split: if_splits)
  qed
qed

lemma resolve_aliases_known:
  "\<forall>i \<in> set ids. resolved_aliases st i \<noteq> None \<Longrightarrow> resolve_aliases a st ids = Inr st"
  by (induction ids) auto

lemma request_generic_result:
  "request_generic a st gs = Inr (st1, reqs) \<Longrightarrow>
   set gs \<subseteq> pending_generic st1 \<and> pending_generic st \<subseteq> pending_generic st1
   \<and> resolved_aliases st1 = resolved_aliases st"
proof (induction gs arbitrary: st reqs)
  case Nil
  then show ?case by simp
next
  case (Cons g gs)
  show ?case
  proof (cases "g \<in> pending_generic st")
    case True
    with Cons.prems have "request_generic a st gs = Inr (st1, reqs)" by simp
    from Cons.IH [OF this] True show ?thesis by auto
  next
    case False
    let ?st = "st\<lparr> pending_generic := insert g (pending_generic st) \<rparr>"
    from Cons.prems False obtain reqs' where "request_generic a ?st gs = Inr (st1, reqs')"
      by (auto split: option.splits sum.splits)
    from Cons.IH [OF this] show ?thesis by auto
  qed
qed

lemma request_generic_known:
  "set gs \<subseteq> pending_generic st \<Longrightarrow> request_generic a st gs = Inr (st, [])"
  by (induction gs) auto

text \<open>
  Claim C7. After a call of \<open>determine_aliases\<close> that succeeds, a second call with the
  same descriptor and the same page changes nothing and requests nothing: the resolved
  aliases and the pending advisories stay as the first call left them, and no fetch
  request is emitted.
\<close>

theorem determine_aliases_twice:
  assumes "determine_aliases a st descriptor page = Inr (st1, reqs)"
  shows "determine_aliases a st1 descriptor page = Inr (st1, [])"
proof -
  let ?ids = "extract_alias_ids a descriptor page"
  let ?gs = "extract_generic_ids a descriptor page"
  from assms obtain st0 where
      r: "resolve_aliases a st ?ids = Inr st0" and
      g: "request_generic a st0 ?gs = Inr (st1, reqs)"
    by (auto simp: determine_aliases_def split: sum.splits)
  from resolve_aliases_result [OF r] have k0: "\<forall>i \<in> set ?ids. resolved_aliases st0 i \<noteq> None"
    by blast
  from request_generic_result [OF g] have
      p: "set ?gs \<subseteq> pending_generic st1" and e: "resolved_aliases st1 = resolved_aliases st0"
    by blast+
  from k0 e have "\<forall>i \<in> set ?ids. resolved_aliases st1 i \<noteq> None" by simp
  then have "resolve_aliases a st1 ?ids = Inr st1" by (rule resolve_aliases_known)
  moreover from p have "request_generic a st1 ?gs = Inr (st1, [])" by (rule request_generic_known)
  ultimately show ?thesis by (simp add: determine_aliases_def)
qed

theorem determine_aliases_twice_witness:
  "determine_aliases ex_alias_env empty_alias_state ex_glsa ex_glsa_page =
     Inr (ex_alias_state,
          [FetchRequest ''https://gitweb.gentoo.org/data/glsa.git/plain/glsa-200601-06.xml''])
   \<and> determine_aliases ex_alias_env ex_alias_state ex_glsa ex_glsa_page =
     Inr (ex_alias_state, [])"
proof -
  have h: "determine_aliases ex_alias_env empty_alias_state ex_glsa ex_glsa_page =
     Inr (ex_alias_state,
          [FetchRequest ''https://gitweb.gentoo.org/data/glsa.git/plain/glsa-200601-06.xml''])"
    by (simp add: determine_aliases_def ex_alias_env_def empty_alias_state_def ex_alias_state_def)
  from determine_aliases_twice [OF h] h show ?thesis by blast
qed


end
